theory Spec2Isabelle
  imports Main "HOL-Library.Word"
begin

section \<open>Data model of package websockethandler\<close>

text \<open>
  The embedding follows \<^verbatim>\<open>handler.go\<close>, the logging part of it
  (\<^verbatim>\<open>level\<close>, \<^verbatim>\<open>ParseLevel\<close>) and \<^verbatim>\<open>utils.go\<close>.
  \<^item> Go strings are byte sequences, modelled as \<^typ>\<open>string\<close>.
  \<^item> Time is counted in nanoseconds, as \<^verbatim>\<open>time.Duration\<close> does. The clock, the
    records handed to the logger and the handlers called are kept in a record \<open>world\<close>
    that every operation with such an effect takes and returns.
  \<^item> The registry \<^verbatim>\<open>wsHandler\<close> is passed explicitly; the tree nodes, which the
    source reaches through pointers, live in a store from addresses to nodes.
  \<^item> Calls are taken one at a time, so the mutex of the registry has no effect and is
    left out.
  \<^item> A loop that may run forever is a partial function into \<open>option\<close>, with
    \<open>None\<close> for a run that never ends; a panic is the outcome \<open>Panics\<close>.
  \<^item> What the Go runtime decides in the \<^verbatim>\<open>select\<close> of \<^verbatim>\<open>shell\<close> (how long
    a pass is held before the poll, how late the timer fires, which of two ready cases is
    taken) is a schedule, an argument of \<open>shell_sched\<close>; \<open>shell\<close> is the loop when
    no pass is held up.
\<close>

type_synonym time = nat

definition Millisecond :: time where
  "Millisecond = 1000000"

definition Second :: time where
  "Second = 1000 * Millisecond"

text \<open>A value of type \<^verbatim>\<open>interface{}\<close>: nil, a string, or any other value (by a tag).\<close>

datatype any = NilValue | Str string | Opaque nat

record MessagePayload =
  Event :: string
  Data :: any
  Status :: string
  Broadcast :: bool

record WsFuncData =
  Client :: any
  Payload :: MessagePayload

text \<open>The registry key \<^verbatim>\<open>WsFunc{Event, Status}\<close>; equality is structural.\<close>

datatype WsFunc = WsFunc (meta_Event: string) (meta_Status: string)

text \<open>
  Errors are kept as the format and the arguments they were built from
  (\<^verbatim>\<open>fmt.Errorf\<close>), the two errors of package context, and the errors a
  handler returns.
\<close>

datatype fmt_arg =
    ArgS string
  | ArgQ string
  | ArgE error
  | ArgMeta WsFunc
  | ArgData WsFuncData
and error =
    DeadlineExceeded
  | Canceled
  | HandlerError string
  | Errorf string "fmt_arg list"

text \<open>
  A context, as far as \<^verbatim>\<open>Done()\<close> and \<^verbatim>\<open>Err()\<close> show it: the instant
  at which its Done channel is closed (never, for \<open>None\<close>) and the error it reports
  from then on.
\<close>

record "context" =
  done_at :: "time option"
  cause :: error

definition ctx_Err :: "context \<Rightarrow> time \<Rightarrow> error option" where
  "ctx_Err ctx now =
     (case done_at ctx of
        None \<Rightarrow> None
      | Some t \<Rightarrow> if t \<le> now then Some (cause ctx) else None)"

text \<open>
  \<^verbatim>\<open>context.WithTimeout(parent, d)\<close> called at \<open>now\<close>: the child is done when
  the parent is, or at \<open>now + d\<close> with \<^verbatim>\<open>DeadlineExceeded\<close>, whichever is first.
\<close>

definition WithTimeout :: "context \<Rightarrow> time \<Rightarrow> time \<Rightarrow> context" where
  "WithTimeout parent now d =
     (case done_at parent of
        None \<Rightarrow> \<lparr>done_at = Some (now + d), cause = DeadlineExceeded\<rparr>
      | Some t \<Rightarrow>
          if t \<le> now + d then parent
          else \<lparr>done_at = Some (now + d), cause = DeadlineExceeded\<rparr>)"

text \<open>
  \<^verbatim>\<open>HandlerFunc\<close>: nil, or a function with its code pointer (what
  \<^verbatim>\<open>%#v\<close> prints; closures of one function literal share it). The body is
  taken as a function of context and data that returns its data, its error and the time
  it ran for.
\<close>

datatype HandlerFunc =
    NilFunc
  | Func (code_ptr: nat) (body: "context \<Rightarrow> WsFuncData \<Rightarrow> WsFuncData \<times> error option \<times> time")

type_synonym addr = nat

record wsHandlerTree =
  main :: HandlerFunc
  parent :: "addr option"
  children :: "addr option"

subsection \<open>Levels\<close>

type_synonym level = "8 word"

definition panicLevel :: level where "panicLevel = 0"
definition fatalLevel :: level where "fatalLevel = 1"
definition errorLevel :: level where "errorLevel = 2"
definition warnLevel :: level where "warnLevel = 3"
definition infoLevel :: level where "infoLevel = 4"
definition debugLevel :: level where "debugLevel = 5"
definition traceLevel :: level where "traceLevel = 6"

definition PanicLevel :: string where "PanicLevel = ''panic''"
definition FatalLevel :: string where "FatalLevel = ''fatal''"
definition ErrorLevel :: string where "ErrorLevel = ''error''"
definition WarnLevel :: string where "WarnLevel = ''warning''"
definition InfoLevel :: string where "InfoLevel = ''info''"
definition DebugLevel :: string where "DebugLevel = ''debug''"
definition TraceLevel :: string where "TraceLevel = ''trace''"

text \<open>
  \<^verbatim>\<open>strings.ToLower\<close>: a string of ASCII bytes is lowered byte by byte; any
  other string goes through \<^verbatim>\<open>strings.Map(unicode.ToLower, s)\<close>, which
  depends on the Unicode tables of the standard library and is the parameter
  \<open>unicodeLower\<close>.
\<close>

definition isASCII :: "char \<Rightarrow> bool" where
  "isASCII c = ((of_char c :: nat) < 128)"

definition asciiLower :: "char \<Rightarrow> char" where
  "asciiLower c =
     (case map_of (zip ''ABCDEFGHIJKLMNOPQRSTUVWXYZ'' ''abcdefghijklmnopqrstuvwxyz'') c of
        Some l \<Rightarrow> l
      | None \<Rightarrow> c)"

definition ToLower :: "(string \<Rightarrow> string) \<Rightarrow> string \<Rightarrow> string" where
  "ToLower unicodeLower s =
     (if list_all isASCII s then map asciiLower s else unicodeLower s)"

definition ParseLevel :: "(string \<Rightarrow> string) \<Rightarrow> string \<Rightarrow> level \<times> error option" where
  "ParseLevel unicodeLower lvl =
     (let l = ToLower unicodeLower lvl in
      if l = ''panic'' then (panicLevel, None)
      else if l = ''fatal'' then (fatalLevel, None)
      else if l = ''error'' then (errorLevel, None)
      else if l = ''warn'' \<or> l = ''warning'' then (warnLevel, None)
      else if l = ''info'' then (infoLevel, None)
      else if l = ''debug'' then (debugLevel, None)
      else if l = ''trace'' then (traceLevel, None)
      else (0, Some (Errorf ''not a valid Level: %q'' [ArgQ lvl])))"

subsection \<open>utils.go\<close>

text \<open>\<^verbatim>\<open>strings.Split(s, "/")\<close>.\<close>

fun split_slash :: "string \<Rightarrow> string list" where
  "split_slash [] = [[]]"
| "split_slash (c # cs) =
     (if c = CHR ''/'' then [] # split_slash cs
      else (case split_slash cs of
              [] \<Rightarrow> [[c]]
            | p # ps \<Rightarrow> (c # p) # ps))"

text \<open>
  \<^verbatim>\<open>getFunctionName\<close>; the name \<^verbatim>\<open>runtime.FuncForPC\<close> reports for the
  calling function is the argument. The names of the four callers follow; each literal is
  written in two parts.
\<close>

definition getFunctionName :: "string \<Rightarrow> string" where
  "getFunctionName fullFuncName = last (split_slash fullFuncName)"

definition pc_Handle :: string where
  "pc_Handle = ''github.com/bydanovm/websockethandler.('' @ ''*wsHandler).Handle''"

definition pc_CallPipelineFunc :: string where
  "pc_CallPipelineFunc = ''github.com/bydanovm/websockethandler.('' @ ''*wsHandler).CallPipelineFunc''"

definition pc_CallFunc :: string where
  "pc_CallFunc = ''github.com/bydanovm/websockethandler.('' @ ''*wsHandler).CallFunc''"

definition pc_shell :: string where
  "pc_shell = ''github.com/bydanovm/websockethandler.('' @ ''*wsHandler).shell''"

subsection \<open>The registry and its environment\<close>

text \<open>
  \<^verbatim>\<open>fmt.Sprintf("%#v", f)\<close> of a function value: its type, then the code pointer
  in hexadecimal, or nil.
\<close>

definition hexDigit :: "nat \<Rightarrow> char" where
  "hexDigit d = ''0123456789abcdef'' ! d"

fun hex :: "nat \<Rightarrow> string" where
  "hex n = (if n < 16 then [hexDigit n] else hex (n div 16) @ [hexDigit (n mod 16)])"

declare hex.simps [simp del]

definition fmtSharpV :: "HandlerFunc \<Rightarrow> string" where
  "fmtSharpV f =
     ''(websockethandler.HandlerFunc)('' @
     (case f of NilFunc \<Rightarrow> ''nil'' | Func p b \<Rightarrow> ''0x'' @ hex p) @ '')''"

datatype log_arg = LogPayload MessagePayload | LogAny any

text \<open>\<^verbatim>\<open>strLog\<close>; the UUID is a fresh random string and is left out.\<close>

record strLog =
  log_Event :: error
  Level :: level
  Module :: string
  Body :: "log_arg list"

text \<open>
  \<^verbatim>\<open>wsHandler\<close>. The tree nodes live in \<open>heap\<close>, a store from addresses to
  nodes; \<open>next_addr\<close> is the next address the allocator hands out. The records the
  logger has printed are kept in the environment.
\<close>

record wsHandler =
  funs :: "WsFunc \<rightharpoonup> HandlerFunc"
  funcTree :: "string \<rightharpoonup> addr"
  heap :: "addr \<Rightarrow> wsHandlerTree"
  next_addr :: addr
  logLevel :: level
  err :: "error option"

text \<open>
  The environment of a call: the clock, the records printed by the logger, and the
  handlers invoked so far, in order.
\<close>

record world =
  clock :: time
  printed :: "strLog list"
  invoked :: "HandlerFunc list"

datatype 'a outcome = Returns 'a | Panics string

definition log_h :: "wsHandler \<Rightarrow> level \<Rightarrow> error \<Rightarrow> log_arg list \<Rightarrow> world \<Rightarrow> world" where
  "log_h h lvl event data w =
     (if logLevel h \<ge> lvl then
        w\<lparr>printed := printed w @
             [\<lparr>log_Event = Errorf ''%w'' [ArgE event], Level = lvl,
               Module = ''websockethandler'', Body = data\<rparr>]\<rparr>
      else w)"

definition NewHandler :: "world \<Rightarrow> wsHandler \<times> world" where
  "NewHandler w =
     (let handler = \<lparr>funs = Map.empty, funcTree = Map.empty,
                     heap = (\<lambda>a. \<lparr>main = NilFunc, parent = None, children = None\<rparr>),
                     next_addr = 0, logLevel = infoLevel, err = None\<rparr>
      in (handler, log_h handler infoLevel (Errorf ''new handler is registered'' []) [] w))"

definition GetError :: "wsHandler \<Rightarrow> error option" where
  "GetError h = err h"

definition SetLogLevel ::
  "(string \<Rightarrow> string) \<Rightarrow> wsHandler \<Rightarrow> string \<Rightarrow> world \<Rightarrow> wsHandler \<times> world" where
  "SetLogLevel unicodeLower h level w =
     (if err h = None then
        (case ParseLevel unicodeLower level of
           (lvl, Some e) \<Rightarrow> (h\<lparr>err := Some (Errorf ''%w:%s'' [ArgE e, ArgS ''SetLogLevel''])\<rparr>, w)
         | (lvl, None) \<Rightarrow>
             (let h1 = h\<lparr>logLevel := lvl\<rparr>
              in (h1, log_h h1 infoLevel (Errorf ''change log level to %s'' [ArgS level]) [] w)))
      else (h, w))"

text \<open>
  Lines 128 to 139 and 149 of \<^verbatim>\<open>Handle\<close>: the parent's node is looked up and,
  when it has no child, linked with the node \<open>mainHandlerTree\<close> of the function.
\<close>

definition Handle_link ::
  "wsHandler \<Rightarrow> WsFunc \<Rightarrow> HandlerFunc \<Rightarrow> HandlerFunc \<Rightarrow> string \<Rightarrow> addr \<Rightarrow> wsHandler" where
  "Handle_link h meta f parentFunc keyMain mainHandlerTree =
     (let keyParent = fmtSharpV parentFunc in
      case funcTree h keyParent of
        Some parentHandlerTree \<Rightarrow>
          if children (heap h parentHandlerTree) \<noteq> None then
            h\<lparr>err := Some (Errorf ''the parent function has a child function declaration:%s:%s:%s''
                  [ArgS keyMain, ArgS keyParent, ArgS (getFunctionName pc_Handle)])\<rparr>
          else
            (let heap1 = (heap h)(parentHandlerTree :=
                            (heap h parentHandlerTree)\<lparr>children := Some mainHandlerTree\<rparr>);
                 heap2 = heap1(mainHandlerTree :=
                            (heap1 mainHandlerTree)\<lparr>parent := Some parentHandlerTree\<rparr>)
             in h\<lparr>heap := heap2, funs := (funs h)(meta \<mapsto> f)\<rparr>)
      | None \<Rightarrow>
          h\<lparr>err := Some (Errorf ''there is no registered parent function:%s:%s:%s''
                [ArgS keyMain, ArgS keyParent, ArgS (getFunctionName pc_Handle)])\<rparr>)"

text \<open>\<^verbatim>\<open>&wsHandlerTree{main: f}\<close>, stored under \<open>keyMain\<close>.\<close>

definition new_node :: "wsHandler \<Rightarrow> string \<Rightarrow> HandlerFunc \<Rightarrow> wsHandler" where
  "new_node h keyMain f =
     h\<lparr>heap := (heap h)(next_addr h := \<lparr>main = f, parent = None, children = None\<rparr>),
       funcTree := (funcTree h)(keyMain \<mapsto> next_addr h),
       next_addr := Suc (next_addr h)\<rparr>"

definition Handle :: "wsHandler \<Rightarrow> WsFunc \<Rightarrow> HandlerFunc \<Rightarrow> HandlerFunc list \<Rightarrow> wsHandler" where
  "Handle h meta f parents =
     (if err h = None then
        (if funs h meta \<noteq> None then
           h\<lparr>err := Some (Errorf ''func with current params has been registered'' [])\<rparr>
         else
           (case parents of
              parentFunc # rest \<Rightarrow>
                (let keyMain = fmtSharpV f in
                 case funcTree h keyMain of
                   Some mainHandlerTree \<Rightarrow>
                     if children (heap h mainHandlerTree) \<noteq> None then
                       h\<lparr>err := Some (Errorf
                            ''the current function has a child function declaration'' [])\<rparr>
                     else Handle_link h meta f parentFunc keyMain mainHandlerTree
                 | None \<Rightarrow>
                     Handle_link (new_node h keyMain f) meta f parentFunc keyMain (next_addr h))
            | [] \<Rightarrow>
                (let keyMain = fmtSharpV f in
                 case funcTree h keyMain of
                   Some n \<Rightarrow>
                     h\<lparr>err := Some (Errorf ''this function is declared:%s:%s''
                           [ArgS keyMain, ArgS (getFunctionName pc_Handle)])\<rparr>
                 | None \<Rightarrow> (new_node h keyMain f)\<lparr>funs := (funs h)(meta \<mapsto> f)\<rparr>)))
      else h)"

subsection \<open>The shell around a handler call\<close>

text \<open>
  The \<^verbatim>\<open>select\<close> of \<^verbatim>\<open>shell\<close>, entered at \<open>now\<close>: the Done channel of the
  context against a timer of one millisecond created on entry. \<open>select_ctx\<close> is the
  select when the pass is not held up: the cases are polled at the instant the timer is
  created and the timer fires on time. Then the context wins when it is done before the
  timer is due, at once when it is done already; otherwise the timer wins (also when both
  are due at the same instant). \<open>select_sched\<close> below is the select under any
  schedule, and \<open>select_ctx\<close> is its value under the schedule \<open>on_time\<close>.
\<close>

datatype select_case = CtxDone time | TimeAfter time

definition select_ctx :: "context \<Rightarrow> time \<Rightarrow> select_case" where
  "select_ctx ctx now =
     (case done_at ctx of
        None \<Rightarrow> TimeAfter (now + Millisecond)
      | Some t \<Rightarrow>
          if t < now + Millisecond then CtxDone (max now t)
          else TimeAfter (now + Millisecond))"

text \<open>The call \<^verbatim>\<open>f(ctx, data)\<close>; calling a nil function panics.\<close>

definition invoke ::
  "HandlerFunc \<Rightarrow> context \<Rightarrow> WsFuncData \<Rightarrow> world \<Rightarrow> ((WsFuncData \<times> error option) \<times> world) outcome" where
  "invoke f ctx data w =
     (case f of
        NilFunc \<Rightarrow> Panics ''runtime error: invalid memory address or nil pointer dereference''
      | Func p b \<Rightarrow>
          (case b ctx data of
             (d, e, dt) \<Rightarrow>
               Returns ((d, e), w\<lparr>clock := clock w + dt, invoked := invoked w @ [f]\<rparr>)))"

text \<open>
  One pass through the body of the \<^verbatim>\<open>for\<close> loop of \<^verbatim>\<open>shell\<close>: \<open>Inl\<close> is a
  return (or a panic), \<open>Inr\<close> the environment with which the loop goes round again.
\<close>

definition shell_iter ::
  "wsHandler \<Rightarrow> HandlerFunc \<Rightarrow> context \<Rightarrow> WsFuncData \<Rightarrow> world \<Rightarrow>
     (WsFuncData \<times> world) outcome + world" where
  "shell_iter h f ctx data w =
     (case select_ctx ctx (clock w) of
        CtxDone t \<Rightarrow>
          (let w1 = w\<lparr>clock := t\<rparr> in
           if ctx_Err ctx t = Some DeadlineExceeded then
             Inl (Returns
               (\<lparr>Client = Client data,
                 Payload = \<lparr>Event = Event (Payload data), Data = Str ''timeout reached'',
                            Status = ErrorLevel, Broadcast = False\<rparr>\<rparr>,
                log_h h errorLevel
                  (Errorf ''%w:%s'' [ArgE DeadlineExceeded, ArgS (getFunctionName pc_shell)])
                  [LogPayload (Payload data), LogAny (Client data)] w1))
           else Inr w1)
      | TimeAfter t \<Rightarrow>
          (case invoke f ctx data (w\<lparr>clock := t\<rparr>) of
             Panics m \<Rightarrow> Inl (Panics m)
           | Returns ((d, e), w2) \<Rightarrow>
               Inl (Returns
                 (d, (case e of
                        Some er \<Rightarrow>
                          log_h h errorLevel
                            (Errorf ''%w:%s'' [ArgE er, ArgS (getFunctionName pc_shell)])
                            [LogPayload (Payload data), LogAny (Client data)] w2
                      | None \<Rightarrow> w2)))))"

text \<open>\<^verbatim>\<open>shell\<close>: the loop; \<open>None\<close> is a loop that never ends.\<close>

partial_function (option) shell ::
  "wsHandler \<Rightarrow> HandlerFunc \<Rightarrow> context \<Rightarrow> WsFuncData \<Rightarrow> world \<Rightarrow>
     (WsFuncData \<times> world) outcome option" where
  "shell h f ctx data w =
     (case shell_iter h f ctx data w of
        Inl r \<Rightarrow> Some r
      | Inr w1 \<Rightarrow> shell h f ctx data w1)"

text \<open>
  What the Go runtime decides in one pass of the loop: how long the pass is held between
  creating the timer and polling the two cases (\<open>stall\<close>), how long after its
  millisecond the timer fires (\<open>late\<close>), and which case the select takes when both
  are ready (\<open>pick\<close>; Go chooses at random).
\<close>

datatype select_pick = PickDone | PickTimer

record pass_sched =
  stall :: time
  late :: time
  pick :: select_pick

definition on_time :: pass_sched where
  "on_time = \<lparr>stall = 0, late = 0, pick = PickTimer\<rparr>"

text \<open>
  The \<^verbatim>\<open>select\<close> under a schedule. At the poll a case is ready when its channel can
  be received from: the Done channel once the context is done, the timer channel once the
  timer has fired. With both ready the schedule picks; with one ready that one is taken;
  with none ready the select waits for the first.
\<close>

definition select_sched :: "context \<Rightarrow> time \<Rightarrow> pass_sched \<Rightarrow> select_case" where
  "select_sched ctx now s =
     (let poll = now + stall s;
          due = now + Millisecond + late s;
          ctx_ready = (case done_at ctx of None \<Rightarrow> False | Some t \<Rightarrow> t \<le> poll);
          timer_ready = (due \<le> poll)
      in if ctx_ready \<and> timer_ready then
           (case pick s of PickDone \<Rightarrow> CtxDone poll | PickTimer \<Rightarrow> TimeAfter poll)
         else if ctx_ready then CtxDone poll
         else if timer_ready then TimeAfter poll
         else (case done_at ctx of
                 None \<Rightarrow> TimeAfter due
               | Some t \<Rightarrow>
                   if t < due then CtxDone t
                   else if due < t then TimeAfter due
                   else (case pick s of PickDone \<Rightarrow> CtxDone t | PickTimer \<Rightarrow> TimeAfter due)))"

text \<open>One pass through the body of the loop of \<^verbatim>\<open>shell\<close> under the schedule \<open>s\<close>.\<close>

definition shell_pass ::
  "wsHandler \<Rightarrow> HandlerFunc \<Rightarrow> context \<Rightarrow> WsFuncData \<Rightarrow> pass_sched \<Rightarrow> world \<Rightarrow>
     (WsFuncData \<times> world) outcome + world" where
  "shell_pass h f ctx data s w =
     (case select_sched ctx (clock w) s of
        CtxDone t \<Rightarrow>
          (let w1 = w\<lparr>clock := t\<rparr> in
           if ctx_Err ctx t = Some DeadlineExceeded then
             Inl (Returns
               (\<lparr>Client = Client data,
                 Payload = \<lparr>Event = Event (Payload data), Data = Str ''timeout reached'',
                            Status = ErrorLevel, Broadcast = False\<rparr>\<rparr>,
                log_h h errorLevel
                  (Errorf ''%w:%s'' [ArgE DeadlineExceeded, ArgS (getFunctionName pc_shell)])
                  [LogPayload (Payload data), LogAny (Client data)] w1))
           else Inr w1)
      | TimeAfter t \<Rightarrow>
          (case invoke f ctx data (w\<lparr>clock := t\<rparr>) of
             Panics m \<Rightarrow> Inl (Panics m)
           | Returns ((d, e), w2) \<Rightarrow>
               Inl (Returns
                 (d, (case e of
                        Some er \<Rightarrow>
                          log_h h errorLevel
                            (Errorf ''%w:%s'' [ArgE er, ArgS (getFunctionName pc_shell)])
                            [LogPayload (Payload data), LogAny (Client data)] w2
                      | None \<Rightarrow> w2)))))"

text \<open>
  \<^verbatim>\<open>shell\<close> under a schedule that gives the decisions of the runtime for every
  pass, from pass \<open>k\<close> on.
\<close>

partial_function (option) shell_sched ::
  "wsHandler \<Rightarrow> HandlerFunc \<Rightarrow> context \<Rightarrow> WsFuncData \<Rightarrow> (nat \<Rightarrow> pass_sched) \<Rightarrow> nat \<Rightarrow>
     world \<Rightarrow> (WsFuncData \<times> world) outcome option" where
  "shell_sched h f ctx data sch k w =
     (case shell_pass h f ctx data (sch k) w of
        Inl r \<Rightarrow> Some r
      | Inr w1 \<Rightarrow> shell_sched h f ctx data sch (Suc k) w1)"

subsection \<open>Dispatch\<close>

definition CallFunc ::
  "wsHandler \<Rightarrow> context \<Rightarrow> WsFunc \<Rightarrow> WsFuncData \<Rightarrow> world \<Rightarrow>
     ((WsFuncData \<times> error option) \<times> world) outcome option" where
  "CallFunc h ctx meta data w =
     (let w0 = log_h h debugLevel
                 (Errorf ''in:%v:%v:%s''
                    [ArgMeta meta, ArgData data, ArgS (getFunctionName pc_CallFunc)]) [] w
      in case funs h meta of
           Some f \<Rightarrow>
             (case shell h f ctx data w0 of
                None \<Rightarrow> None
              | Some (Panics m) \<Rightarrow> Some (Panics m)
              | Some (Returns (d, w1)) \<Rightarrow>
                  Some (Returns
                    ((d, None),
                     log_h h debugLevel
                       (Errorf ''out:%v:%v:%s''
                          [ArgMeta meta, ArgData d, ArgS (getFunctionName pc_CallFunc)]) [] w1)))
         | None \<Rightarrow>
             Some (Returns
               ((\<lparr>Client = NilValue,
                  Payload = \<lparr>Event = Event (Payload data), Data = NilValue,
                             Status = ErrorLevel, Broadcast = False\<rparr>\<rparr>,
                 Some (Errorf ''func with current params has not been registered:%v:%s''
                         [ArgMeta meta, ArgS (getFunctionName pc_CallFunc)])),
                w0)))"

text \<open>
  The \<^verbatim>\<open>for\<close> loop of \<^verbatim>\<open>CallPipelineFunc\<close> at the node \<open>f\<close>. The channel is the
  list of the payloads sent so far (its reader is taken to keep up). Every step is given
  \<open>data\<close>, the input of the call.
\<close>

partial_function (option) CallPipelineFunc_loop ::
  "wsHandler \<Rightarrow> context \<Rightarrow> WsFuncData \<Rightarrow> addr \<Rightarrow> MessagePayload list \<Rightarrow> world \<Rightarrow>
     (MessagePayload list \<times> world) outcome option" where
  "CallPipelineFunc_loop h ctx data f ch w =
     (case shell h (main (heap h f)) (WithTimeout ctx (clock w) (30 * Second)) data w of
        None \<Rightarrow> None
      | Some (Panics m) \<Rightarrow> Some (Panics m)
      | Some (Returns (d, w1)) \<Rightarrow>
          if Status (Payload d) = ErrorLevel then Some (Returns (ch @ [Payload d], w1))
          else (case children (heap h f) of
                  Some c \<Rightarrow> CallPipelineFunc_loop h ctx data c (ch @ [Payload d]) w1
                | None \<Rightarrow> Some (Returns (ch @ [Payload d], w1))))"

definition CallPipelineFunc ::
  "wsHandler \<Rightarrow> context \<Rightarrow> WsFunc \<Rightarrow> WsFuncData \<Rightarrow> MessagePayload list \<Rightarrow> world \<Rightarrow>
     (error option \<times> MessagePayload list \<times> world) outcome option" where
  "CallPipelineFunc h ctx meta data ch w =
     (let w0 = log_h h debugLevel
                 (Errorf ''in:%v:%v:%s''
                    [ArgMeta meta, ArgData data, ArgS (getFunctionName pc_CallPipelineFunc)]) [] w
      in case funs h meta of
           Some f \<Rightarrow>
             (case funcTree h (fmtSharpV f) of
                Some n \<Rightarrow>
                  (case CallPipelineFunc_loop h ctx data n ch w0 of
                     None \<Rightarrow> None
                   | Some (Panics m) \<Rightarrow> Some (Panics m)
                   | Some (Returns (ch1, w1)) \<Rightarrow> Some (Returns (None, ch1, w1)))
              | None \<Rightarrow>
                  Some (Returns
                    (Some (Errorf
                       ''func with current params has not been registered for pipeline:%v:%s''
                       [ArgMeta meta, ArgS (getFunctionName pc_CallPipelineFunc)]),
                     ch @ [\<lparr>Event = Event (Payload data), Data = NilValue,
                            Status = ErrorLevel, Broadcast = False\<rparr>],
                     w0)))
         | None \<Rightarrow>
             Some (Returns
               (Some (Errorf ''func with current params has not been registered:%v:%s''
                        [ArgMeta meta, ArgS (getFunctionName pc_CallPipelineFunc)]),
                ch @ [\<lparr>Event = Event (Payload data), Data = NilValue,
                       Status = ErrorLevel, Broadcast = False\<rparr>],
                w0)))"

section \<open>Definitions used in the statements\<close>

text \<open>
  What \<^verbatim>\<open>shell\<close> logs after the handler has returned the error \<open>e\<close>.
\<close>

definition shell_log :: "wsHandler \<Rightarrow> WsFuncData \<Rightarrow> error option \<Rightarrow> world \<Rightarrow> world" where
  "shell_log h data e w =
     (case e of
        Some er \<Rightarrow>
          log_h h errorLevel (Errorf ''%w:%s'' [ArgE er, ArgS (getFunctionName pc_shell)])
            [LogPayload (Payload data), LogAny (Client data)] w
      | None \<Rightarrow> w)"

text \<open>
  What the timer case of the select does: the handler is called, an error it returns is
  logged, and its data are returned.
\<close>

definition timer_case ::
  "wsHandler \<Rightarrow> HandlerFunc \<Rightarrow> context \<Rightarrow> WsFuncData \<Rightarrow> world \<Rightarrow>
     (WsFuncData \<times> world) outcome" where
  "timer_case h f ctx data w =
     (case invoke f ctx data w of
        Panics m \<Rightarrow> Panics m
      | Returns ((d, e), w2) \<Rightarrow> Returns (d, shell_log h data e w2))"

text \<open>
  A pass that is held until its timer has fired, and in which the select then takes the
  timer case.
\<close>

definition held :: "pass_sched \<Rightarrow> bool" where
  "held s = (Millisecond + late s \<le> stall s \<and> pick s = PickTimer)"

text \<open>
  Every node the function tree refers to has been allocated. \<^verbatim>\<open>NewHandler\<close>
  establishes this and \<^verbatim>\<open>Handle\<close> and \<^verbatim>\<open>SetLogLevel\<close> keep it.
\<close>

definition wf_registry :: "wsHandler \<Rightarrow> bool" where
  "wf_registry h = (\<forall>k a. funcTree h k = Some a \<longrightarrow> a < next_addr h)"

text \<open>A sequence of configuration calls, chained as the builder interface allows.\<close>

datatype config_call = CallHandle WsFunc HandlerFunc "HandlerFunc list" | CallSetLogLevel string

fun configure ::
  "(string \<Rightarrow> string) \<Rightarrow> config_call list \<Rightarrow> wsHandler \<times> world \<Rightarrow> wsHandler \<times> world" where
  "configure ul [] hw = hw"
| "configure ul (CallHandle meta f parents # cs) (h, w) =
     configure ul cs (Handle h meta f parents, w)"
| "configure ul (CallSetLogLevel level # cs) (h, w) =
     configure ul cs (SetLogLevel ul h level w)"

text \<open>The spellings \<^verbatim>\<open>ParseLevel\<close> accepts, in lower case.\<close>

definition level_names :: "string list" where
  "level_names =
     [''panic'', ''fatal'', ''error'', ''warn'', ''warning'', ''info'', ''debug'', ''trace'']"

subsection \<open>Concrete registries, handlers and contexts\<close>

definition w_init :: world where
  "w_init = \<lparr>clock = 0, printed = [], invoked = []\<rparr>"

definition w_late :: world where
  "w_late = \<lparr>clock = 5 * Second, printed = [], invoked = []\<rparr>"

text \<open>A handler that sets the status of its input and runs for \<open>dt\<close> nanoseconds.\<close>

definition reply ::
  "string \<Rightarrow> time \<Rightarrow> context \<Rightarrow> WsFuncData \<Rightarrow> WsFuncData \<times> error option \<times> time" where
  "reply st dt ctx data = (data\<lparr>Payload := (Payload data)\<lparr>Status := st\<rparr>\<rparr>, None, dt)"

text \<open>A handler that returns data together with an error.\<close>

definition failing :: "context \<Rightarrow> WsFuncData \<Rightarrow> WsFuncData \<times> error option \<times> time" where
  "failing ctx data =
     (data\<lparr>Payload := (Payload data)\<lparr>Data := Str ''partial''\<rparr>\<rparr>,
      Some (HandlerError ''boom''), 3)"

definition stepA :: HandlerFunc where "stepA = Func 4198400 (reply ''ok'' 5)"
definition stepB :: HandlerFunc where "stepB = Func 4198656 (reply ''error'' 7)"
definition stepC :: HandlerFunc where "stepC = Func 4198912 (reply ''ok'' 9)"
definition stepE :: HandlerFunc where "stepE = Func 4199168 failing"

definition keyA :: WsFunc where "keyA = WsFunc ''order'' ''new''"
definition keyB :: WsFunc where "keyB = WsFunc ''order'' ''paid''"
definition keyC :: WsFunc where "keyC = WsFunc ''order'' ''sent''"
definition keyD :: WsFunc where "keyD = WsFunc ''order'' ''void''"

definition order0 :: WsFuncData where
  "order0 = \<lparr>Client = Opaque 7,
              Payload = \<lparr>Event = ''order'', Data = Str ''42'', Status = ''new'',
                         Broadcast = False\<rparr>\<rparr>"

definition ctx_minute :: "context" where
  "ctx_minute = \<lparr>done_at = Some (60 * Second), cause = DeadlineExceeded\<rparr>"


definition ctx_cancelled :: "context" where
  "ctx_cancelled = \<lparr>done_at = Some (3 * Second), cause = Canceled\<rparr>"

text \<open>Two passes on time, then passes held for two milliseconds.\<close>

definition stalled :: "nat \<Rightarrow> pass_sched" where
  "stalled k =
     (if k < 2 then on_time else \<lparr>stall = 2 * Millisecond, late = 0, pick = PickTimer\<rparr>)"

definition registry0 :: wsHandler where
  "registry0 = fst (NewHandler w_init)"

text \<open>One root.\<close>

definition orphan :: wsHandler where
  "orphan = Handle registry0 keyA stepA []"

text \<open>The pipeline \<open>stepA\<close>, \<open>stepB\<close>, \<open>stepC\<close>.\<close>

definition chain3 :: wsHandler where
  "chain3 =
     Handle (Handle (Handle registry0 keyA stepA []) keyB stepB [stepA]) keyC stepC [stepB]"

text \<open>Two roots \<open>stepA\<close> and \<open>stepB\<close>, and \<open>stepC\<close> the child of \<open>stepA\<close>.\<close>

definition fork :: wsHandler where
  "fork = Handle (Handle (Handle registry0 keyA stepA []) keyB stepB []) keyC stepC [stepA]"

text \<open>A registry whose second registration repeated a key.\<close>

definition stuck :: wsHandler where
  "stuck = Handle (Handle registry0 keyA stepA []) keyA stepB []"

section \<open>Basic facts\<close>

subsection \<open>Logging\<close>

lemma clock_log_h [simp]: "clock (log_h h lvl e bs w) = clock w"
  by (simp add: log_h_def)

lemma invoked_log_h [simp]: "invoked (log_h h lvl e bs w) = invoked w"
  by (simp add: log_h_def)

lemma clock_shell_log [simp]: "clock (shell_log h data e w) = clock w"
  by (simp add: shell_log_def split: option.splits)

lemma invoked_shell_log [simp]: "invoked (shell_log h data e w) = invoked w"
  by (simp add: shell_log_def split: option.splits)

lemma fnames:
  "getFunctionName pc_shell = ''websockethandler.('' @ ''*wsHandler).shell''"
  "getFunctionName pc_Handle = ''websockethandler.('' @ ''*wsHandler).Handle''"
  "getFunctionName pc_CallFunc = ''websockethandler.('' @ ''*wsHandler).CallFunc''"
  "getFunctionName pc_CallPipelineFunc = ''websockethandler.('' @ ''*wsHandler).CallPipelineFunc''"
  by (simp_all add: getFunctionName_def pc_shell_def pc_Handle_def pc_CallFunc_def
        pc_CallPipelineFunc_def)

lemma levels: "errorLevel \<le> infoLevel" "\<not> debugLevel \<le> infoLevel"
  by (simp_all add: errorLevel_def infoLevel_def debugLevel_def)

subsection \<open>The select and the loop of shell\<close>


lemma select_timer:
  "(\<forall>t. done_at ctx = Some t \<longrightarrow> now + Millisecond \<le> t) \<Longrightarrow>
     select_ctx ctx now = TimeAfter (now + Millisecond)"
  by (auto simp: select_ctx_def split: option.splits)

text \<open>Thirty seconds are more than the millisecond of the select.\<close>

lemma select_WithTimeout:
  "select_ctx (WithTimeout ctx now (30 * Second)) now = select_ctx ctx now"
  by (auto simp: select_ctx_def WithTimeout_def Second_def Millisecond_def split: option.splits)

lemma shell_return: "shell_iter h f ctx data w = Inl r \<Longrightarrow> shell h f ctx data w = Some r"
  by (subst shell.simps) simp

lemma shell_again:
  "shell_iter h f ctx data w = Inr w1 \<Longrightarrow> shell h f ctx data w = shell h f ctx data w1"
  by (subst shell.simps) simp

lemma shell_timer:
  assumes "select_ctx ctx (clock w) = TimeAfter t" and "b ctx data = (d, e, dt)"
  shows "shell h (Func p b) ctx data w =
           Some (Returns
             (d, shell_log h data e (w\<lparr>clock := t + dt, invoked := invoked w @ [Func p b]\<rparr>)))"
  using assms
  by (intro shell_return) (simp add: shell_iter_def invoke_def shell_log_def split: option.splits)


subsection \<open>The loop of shell under a schedule\<close>

text \<open>\<^verbatim>\<open>shell\<close> is the loop under the schedule that holds no pass up.\<close>

lemma select_sched_on_time: "select_sched ctx now on_time = select_ctx ctx now"
  by (auto simp: select_sched_def select_ctx_def on_time_def Let_def max_def Millisecond_def split: option.splits)

lemma shell_pass_on_time: "shell_pass h f ctx data on_time w = shell_iter h f ctx data w"
  by (simp add: shell_pass_def shell_iter_def select_sched_on_time)

lemma shell_sched_le_shell:
  "shell_sched h f ctx data sch k w = Some r \<Longrightarrow> sch = (\<lambda>k. on_time) \<Longrightarrow>
     shell h f ctx data w = Some r"
proof (induct rule: shell_sched.raw_induct [rotated 1, consumes 1, case_names step])
  case (step sh h f ctx data sch k w r)
  show ?case
  proof (cases "shell_iter h f ctx data w")
    case (Inl r')
    with step(2,3) show ?thesis by (simp add: shell_pass_on_time shell_return)
  next
    case (Inr w1)
    with step(2,3) have "sh h f ctx data sch (Suc k) w1 = Some r"
      by (simp add: shell_pass_on_time)
    from step(1)[OF this step(3)] Inr show ?thesis by (simp add: shell_again)
  qed
qed

lemma shell_le_shell_sched:
  "shell h f ctx data w = Some r \<Longrightarrow> shell_sched h f ctx data (\<lambda>k. on_time) k w = Some r"
proof (induct arbitrary: k rule: shell.raw_induct [rotated 1, consumes 1, case_names step])
  case (step sh h f ctx data w r)
  show ?case
  proof (cases "shell_iter h f ctx data w")
    case (Inl r')
    with step(2) show ?thesis
      by (subst shell_sched.simps) (simp add: shell_pass_on_time)
  next
    case (Inr w1)
    with step(2) have "sh h f ctx data w1 = Some r" by simp
    from step(1)[OF this, of "Suc k"] Inr show ?thesis
      by (subst shell_sched.simps) (simp add: shell_pass_on_time)
  qed
qed

lemma shell_sched_on_time:
  "shell_sched h f ctx data (\<lambda>k. on_time) k w = shell h f ctx data w"
proof (cases "shell h f ctx data w")
  case None
  show ?thesis
  proof (cases "shell_sched h f ctx data (\<lambda>k. on_time) k w")
    case None
    with \<open>shell h f ctx data w = None\<close> show ?thesis by simp
  next
    case (Some r)
    from shell_sched_le_shell[OF this refl] None show ?thesis by simp
  qed
next
  case (Some r)
  then show ?thesis by (simp add: shell_le_shell_sched)
qed

text \<open>
  A context that is done for another reason than its deadline: a pass returns when it is
  held and takes the timer case, and goes round again otherwise.
\<close>

lemma shell_pass_held:
  assumes "done_at ctx = Some t" and "t < clock w + Millisecond" and "held s"
  shows "shell_pass h f ctx data s w =
           Inl (timer_case h f ctx data (w\<lparr>clock := clock w + stall s\<rparr>))"
proof -
  have "select_sched ctx (clock w) s = TimeAfter (clock w + stall s)"
    using assms by (auto simp: select_sched_def held_def Let_def)
  then show ?thesis
    by (simp add: shell_pass_def timer_case_def shell_log_def
             split: outcome.splits prod.splits option.splits)
qed

lemma shell_pass_not_held:
  assumes "done_at ctx = Some t" and "t < clock w + Millisecond"
    and "cause ctx \<noteq> DeadlineExceeded" and "\<not> held s"
  shows "\<exists>p. shell_pass h f ctx data s w = Inr (w\<lparr>clock := p\<rparr>) \<and> t \<le> p"
proof -
  have "\<exists>p. select_sched ctx (clock w) s = CtxDone p \<and> t \<le> p"
    using assms(1,2,4)
    by (cases "pick s") (auto simp: select_sched_def held_def Let_def)
  then obtain p where p: "select_sched ctx (clock w) s = CtxDone p" "t \<le> p" by blast
  with assms(1,3) have "shell_pass h f ctx data s w = Inr (w\<lparr>clock := p\<rparr>)"
    by (simp add: shell_pass_def ctx_Err_def)
  with p show ?thesis by blast
qed

lemma shell_sched_cancelled_result:
  "shell_sched h f ctx data sch k w = Some r \<Longrightarrow>
     done_at ctx = Some t \<Longrightarrow> t < clock w + Millisecond \<Longrightarrow> cause ctx \<noteq> DeadlineExceeded \<Longrightarrow>
     \<exists>j w1. k \<le> j \<and> held (sch j) \<and> invoked w1 = invoked w \<and> printed w1 = printed w \<and>
            r = timer_case h f ctx data w1"
proof (induct rule: shell_sched.raw_induct [rotated 1, consumes 1, case_names step])
  case (step sh h f ctx data sch k w r)
  show ?case
  proof (cases "held (sch k)")
    case True
    from shell_pass_held[OF step(3,4) True, of h f data] step(2)
    have "r = timer_case h f ctx data (w\<lparr>clock := clock w + stall (sch k)\<rparr>)" by simp
    with True show ?thesis by (intro exI[of _ k] exI[of _ "w\<lparr>clock := clock w + stall (sch k)\<rparr>"]) simp
  next
    case False
    from shell_pass_not_held[OF step(3,4,5) False, of h f data]
    obtain p where p: "shell_pass h f ctx data (sch k) w = Inr (w\<lparr>clock := p\<rparr>)" "t \<le> p"
      by blast
    with step(2) have a: "sh h f ctx data sch (Suc k) (w\<lparr>clock := p\<rparr>) = Some r" by simp
    have b: "t < clock (w\<lparr>clock := p\<rparr>) + Millisecond" using p(2) by (simp add: Millisecond_def)
    from step(1)[OF a step(3) b step(5)] show ?thesis
      by (auto intro: Suc_leD)
  qed
qed

lemma shell_sched_cancelled_returns:
  "done_at ctx = Some t \<Longrightarrow> t < clock w + Millisecond \<Longrightarrow> cause ctx \<noteq> DeadlineExceeded \<Longrightarrow>
     held (sch (k + d)) \<Longrightarrow> shell_sched h f ctx data sch k w \<noteq> None"
proof (induction d arbitrary: k w)
  case 0
  then have "held (sch k)" by simp
  from shell_pass_held[OF "0.prems"(1,2) this, of h f data] show ?case
    by (subst shell_sched.simps) simp
next
  case (Suc d)
  show ?case
  proof (cases "held (sch k)")
    case True
    from shell_pass_held[OF Suc.prems(1,2) this, of h f data] show ?thesis
      by (subst shell_sched.simps) simp
  next
    case False
    from shell_pass_not_held[OF Suc.prems(1,2,3) False, of h f data]
    obtain p where p: "shell_pass h f ctx data (sch k) w = Inr (w\<lparr>clock := p\<rparr>)" "t \<le> p"
      by blast
    have b: "t < clock (w\<lparr>clock := p\<rparr>) + Millisecond" using p(2) by (simp add: Millisecond_def)
    have "held (sch (Suc k + d))" using Suc.prems(4) by simp
    from Suc.IH[OF Suc.prems(1) b Suc.prems(3) this] p(1) show ?thesis
      by (subst shell_sched.simps) simp
  qed
qed

subsection \<open>One step of the pipeline\<close>

lemma loop_step:
  assumes "main (heap h n) = Func p b"
    and "\<forall>t. done_at ctx = Some t \<longrightarrow> clock w + Millisecond \<le> t"
    and "b (WithTimeout ctx (clock w) (30 * Second)) data = (d, e, dt)"
    and "w1 = shell_log h data e
                (w\<lparr>clock := clock w + Millisecond + dt, invoked := invoked w @ [Func p b]\<rparr>)"
  shows "CallPipelineFunc_loop h ctx data n ch w =
           (if Status (Payload d) = ErrorLevel then Some (Returns (ch @ [Payload d], w1))
            else (case children (heap h n) of
                    Some c \<Rightarrow> CallPipelineFunc_loop h ctx data c (ch @ [Payload d]) w1
                  | None \<Rightarrow> Some (Returns (ch @ [Payload d], w1))))"
proof -
  have "select_ctx (WithTimeout ctx (clock w) (30 * Second)) (clock w) =
          TimeAfter (clock w + Millisecond)"
    using assms(2) by (simp add: select_WithTimeout select_timer)
  then have "shell h (Func p b) (WithTimeout ctx (clock w) (30 * Second)) data w =
               Some (Returns (d, w1))"
    using assms(3,4) by (simp add: shell_timer)
  with assms(1) show ?thesis by (subst CallPipelineFunc_loop.simps) simp
qed

subsection \<open>Registration\<close>

lemma Handle_sticky: "err h \<noteq> None \<Longrightarrow> Handle h meta f parents = h"
  by (auto simp: Handle_def)

lemma SetLogLevel_sticky: "err h \<noteq> None \<Longrightarrow> SetLogLevel ul h level w = (h, w)"
  by (auto simp: SetLogLevel_def)

lemma configure_sticky: "err h \<noteq> None \<Longrightarrow> configure ul cs (h, w) = (h, w)"
proof (induction cs)
  case Nil
  then show ?case by simp
next
  case (Cons c cs)
  then show ?case by (cases c) (simp_all add: Handle_sticky SetLogLevel_sticky)
qed

lemma wf_NewHandler: "wf_registry (fst (NewHandler w))"
  by (simp add: wf_registry_def NewHandler_def Let_def)

lemma wf_new_node: "wf_registry h \<Longrightarrow> wf_registry (new_node h k f)"
  by (auto simp: wf_registry_def new_node_def less_Suc_eq)

lemma wf_Handle_link: "wf_registry h \<Longrightarrow> wf_registry (Handle_link h meta f p k a)"
  by (auto simp: wf_registry_def Handle_link_def Let_def split: option.splits)

lemma wf_Handle: "wf_registry h \<Longrightarrow> wf_registry (Handle h meta f parents)"
proof -
  assume wf: "wf_registry h"
  have upd: "\<And>e. wf_registry (h\<lparr>err := e\<rparr>)"
    "\<And>g x. wf_registry x \<Longrightarrow> wf_registry (x\<lparr>funs := g\<rparr>)"
    using wf by (simp_all add: wf_registry_def)
  show ?thesis
    unfolding Handle_def Let_def
    by (auto simp: wf upd wf_new_node wf_Handle_link split: list.splits option.splits)
qed

lemma wf_SetLogLevel: "wf_registry h \<Longrightarrow> wf_registry (fst (SetLogLevel ul h level w))"
  by (auto simp: wf_registry_def SetLogLevel_def Let_def split: prod.splits option.splits)

lemma Handle_main_has_child:
  assumes "funcTree h (fmtSharpV f) = Some a" and "children (heap h a) \<noteq> None"
  shows "err (Handle h meta f (p # ps)) \<noteq> None \<and> funs (Handle h meta f (p # ps)) = funs h \<and>
         funcTree (Handle h meta f (p # ps)) = funcTree h \<and>
         heap (Handle h meta f (p # ps)) = heap h"
  using assms by (auto simp: Handle_def Let_def)

lemma Handle_link_parent_has_child:
  assumes "funcTree h (fmtSharpV p) = Some a" and "children (heap h a) \<noteq> None"
  shows "err (Handle_link h meta f p k m) \<noteq> None \<and>
         funs (Handle_link h meta f p k m) = funs h \<and>
         funcTree (Handle_link h meta f p k m) = funcTree h \<and>
         heap (Handle_link h meta f p k m) = heap h"
  using assms by (auto simp: Handle_link_def Let_def)

subsection \<open>The concrete registries\<close>

lemma keys:
  "fmtSharpV stepA = ''(websockethandler.HandlerFunc)(0x401000)''"
  "fmtSharpV stepB = ''(websockethandler.HandlerFunc)(0x401100)''"
  "fmtSharpV stepC = ''(websockethandler.HandlerFunc)(0x401200)''"
  by (simp_all add: stepA_def stepB_def stepC_def fmtSharpV_def hex.simps hexDigit_def)

lemma orphan_eq:
  "orphan = \<lparr>funs = [keyA \<mapsto> stepA], funcTree = [fmtSharpV stepA \<mapsto> 0],
      heap = (\<lambda>a. \<lparr>main = NilFunc, parent = None, children = None\<rparr>)
         (0 := \<lparr>main = stepA, parent = None, children = None\<rparr>),
      next_addr = 1, logLevel = infoLevel, err = None\<rparr>"
  unfolding orphan_def registry0_def
  by (simp add: Handle_def new_node_def NewHandler_def Let_def)

lemma chain3_eq:
  "chain3 = \<lparr>funs = [keyA \<mapsto> stepA, keyB \<mapsto> stepB, keyC \<mapsto> stepC],
      funcTree = [fmtSharpV stepA \<mapsto> 0, fmtSharpV stepB \<mapsto> 1, fmtSharpV stepC \<mapsto> 2],
      heap = (\<lambda>a. \<lparr>main = NilFunc, parent = None, children = None\<rparr>)
         (0 := \<lparr>main = stepA, parent = None, children = Some 1\<rparr>,
          1 := \<lparr>main = stepB, parent = Some 0, children = Some 2\<rparr>,
          2 := \<lparr>main = stepC, parent = Some 1, children = None\<rparr>),
      next_addr = 3, logLevel = infoLevel, err = None\<rparr>"
  unfolding chain3_def registry0_def
  apply (simp add: Handle_def Handle_link_def new_node_def NewHandler_def Let_def keys)
  apply (simp add: keyA_def keyB_def keyC_def)
  apply (auto simp: fun_eq_iff)
  done

lemma fork_eq:
  "fork = \<lparr>funs = [keyA \<mapsto> stepA, keyB \<mapsto> stepB, keyC \<mapsto> stepC],
      funcTree = [fmtSharpV stepA \<mapsto> 0, fmtSharpV stepB \<mapsto> 1, fmtSharpV stepC \<mapsto> 2],
      heap = (\<lambda>a. \<lparr>main = NilFunc, parent = None, children = None\<rparr>)
         (0 := \<lparr>main = stepA, parent = None, children = Some 2\<rparr>,
          1 := \<lparr>main = stepB, parent = None, children = None\<rparr>,
          2 := \<lparr>main = stepC, parent = Some 0, children = None\<rparr>),
      next_addr = 3, logLevel = infoLevel, err = None\<rparr>"
  unfolding fork_def registry0_def
  apply (simp add: Handle_def Handle_link_def new_node_def NewHandler_def Let_def keys)
  apply (simp add: keyA_def keyB_def keyC_def)
  apply (auto simp: fun_eq_iff)
  done

lemma keys_distinct:
  "keyD \<noteq> keyA" "keyD \<noteq> keyB" "keyD \<noteq> keyC" "keyA \<noteq> keyB" "keyB \<noteq> keyA"
  by (simp_all add: keyA_def keyB_def keyC_def keyD_def)

lemma chain3_fields:
  "funs chain3 keyA = Some stepA" "funs chain3 keyD = None"
  "funcTree chain3 (fmtSharpV stepA) = Some 0"
  "main (heap chain3 0) = stepA" "children (heap chain3 0) = Some 1"
  "main (heap chain3 1) = stepB" "children (heap chain3 1) = Some 2"
  "main (heap chain3 2) = stepC" "children (heap chain3 2) = None"
  "logLevel chain3 = infoLevel" "err chain3 = None"
  by (simp_all add: chain3_eq keys keyA_def keyB_def keyC_def keyD_def)

lemma wf_chain3: "wf_registry chain3"
  unfolding chain3_def registry0_def by (intro wf_Handle wf_NewHandler)

lemma chain3_quiet: "log_h chain3 debugLevel e bs w = w"
  by (simp add: log_h_def chain3_fields levels)

lemma ctx_minute_live:
  "\<forall>t. done_at ctx_minute = Some t \<longrightarrow> clock w_init + Millisecond \<le> t"
  by (simp add: ctx_minute_def w_init_def Second_def Millisecond_def)

lemma ctx_cancelled_facts:
  "done_at ctx_cancelled = Some (3 * Second)" "3 * Second < clock w_late + Millisecond"
  "cause ctx_cancelled = Canceled"
  by (simp_all add: ctx_cancelled_def w_late_def Second_def Millisecond_def)

lemma stalled_passes:
  "shell_pass chain3 stepA ctx_cancelled order0 (stalled 0) w_late = Inr w_late"
  "shell_pass chain3 stepA ctx_cancelled order0 (stalled (Suc 0)) w_late = Inr w_late"
  "shell_pass chain3 stepA ctx_cancelled order0 (stalled (Suc (Suc 0))) w_late =
     Inl (Returns
       (\<lparr>Client = Opaque 7,
         Payload = \<lparr>Event = ''order'', Data = Str ''42'', Status = ''ok'', Broadcast = False\<rparr>\<rparr>,
        \<lparr>clock = 5 * Second + 2 * Millisecond + 5, printed = [], invoked = [stepA]\<rparr>))"
  by (simp_all add: shell_pass_def select_sched_def stalled_def on_time_def ctx_cancelled_def
        w_late_def ctx_Err_def invoke_def stepA_def reply_def order0_def
        Second_def Millisecond_def Let_def)

lemma stalled_run:
  "shell_sched chain3 stepA ctx_cancelled order0 stalled 0 w_late =
     Some (Returns
       (\<lparr>Client = Opaque 7,
         Payload = \<lparr>Event = ''order'', Data = Str ''42'', Status = ''ok'', Broadcast = False\<rparr>\<rparr>,
        \<lparr>clock = 5 * Second + 2 * Millisecond + 5, printed = [], invoked = [stepA]\<rparr>))"
proof -
  have "shell_sched chain3 stepA ctx_cancelled order0 stalled 0 w_late =
          shell_sched chain3 stepA ctx_cancelled order0 stalled (Suc 0) w_late"
    by (subst shell_sched.simps) (simp add: stalled_passes)
  also have "\<dots> = shell_sched chain3 stepA ctx_cancelled order0 stalled (Suc (Suc 0)) w_late"
    by (subst shell_sched.simps) (simp add: stalled_passes)
  also have "\<dots> = Some (Returns
       (\<lparr>Client = Opaque 7,
         Payload = \<lparr>Event = ''order'', Data = Str ''42'', Status = ''ok'', Broadcast = False\<rparr>\<rparr>,
        \<lparr>clock = 5 * Second + 2 * Millisecond + 5, printed = [], invoked = [stepA]\<rparr>))"
    by (subst shell_sched.simps) (simp add: stalled_passes)
  finally show ?thesis .
qed

section \<open>The claims\<close>

subsection \<open>C1: conflicting child registrations\<close>

text \<open>
  C1 as stated fails where the handler is already the child of another parent. In
  \<open>fork\<close> the node of \<open>stepC\<close> is the child of the node of \<open>stepA\<close>. Registering
  \<open>stepC\<close> again, now below \<open>stepB\<close>, sets no error: the node of \<open>stepC\<close> gets
  \<open>stepB\<close> as its parent, and \<open>stepB\<close> gets it as its child.
\<close>

theorem C1_relink_counterexample:
  "funcTree fork (fmtSharpV stepC) = Some 2 \<and> parent (heap fork 2) = Some 0 \<and>
   children (heap fork 0) = Some 2 \<and>
   err (Handle fork keyD stepC [stepB]) = None \<and>
   parent (heap (Handle fork keyD stepC [stepB]) 2) = Some 1 \<and>
   children (heap (Handle fork keyD stepC [stepB]) 1) = Some 2 \<and>
   heap (Handle fork keyD stepC [stepB]) \<noteq> heap fork"
proof -
  have a: "funcTree fork (fmtSharpV stepC) = Some 2 \<and> parent (heap fork 2) = Some 0 \<and>
           children (heap fork 0) = Some 2"
    by (simp add: fork_eq keys)
  have b: "err (Handle fork keyD stepC [stepB]) = None \<and>
           parent (heap (Handle fork keyD stepC [stepB]) 2) = Some 1 \<and>
           children (heap (Handle fork keyD stepC [stepB]) 1) = Some 2"
    by (simp add: fork_eq keys keys_distinct Handle_def Handle_link_def Let_def)
  from a b have "parent (heap (Handle fork keyD stepC [stepB]) 2) \<noteq> parent (heap fork 2)"
    by simp
  then have "heap (Handle fork keyD stepC [stepB]) \<noteq> heap fork" by metis
  with a b show ?thesis by simp
qed

text \<open>
  C1, amended: in a registry whose tree nodes are all allocated, a call of
  \<^verbatim>\<open>Handle\<close> with a parent argument, where the tree node of the handler already has
  a child or the tree node of the parent already has a child, leaves the error state set,
  adds no key, and leaves every node of the function tree under its key and with its
  handler, parent link and child link.
\<close>

theorem C1_child_conflict_rejected:
  assumes "wf_registry h"
    and "(\<exists>a. funcTree h (fmtSharpV f) = Some a \<and> children (heap h a) \<noteq> None) \<or>
         (\<exists>a. funcTree h (fmtSharpV p) = Some a \<and> children (heap h a) \<noteq> None)"
  shows "err (Handle h meta f (p # ps)) \<noteq> None \<and>
         funs (Handle h meta f (p # ps)) = funs h \<and>
         (\<forall>k a. funcTree h k = Some a \<longrightarrow>
            funcTree (Handle h meta f (p # ps)) k = Some a \<and>
            heap (Handle h meta f (p # ps)) a = heap h a)"
proof (cases "\<exists>a. funcTree h (fmtSharpV f) = Some a \<and> children (heap h a) \<noteq> None")
  case True
  then obtain a where "funcTree h (fmtSharpV f) = Some a" "children (heap h a) \<noteq> None"
    by blast
  from Handle_main_has_child[OF this, of meta p ps] show ?thesis by simp
next
  case False
  with assms(2) obtain a where a: "funcTree h (fmtSharpV p) = Some a"
    "children (heap h a) \<noteq> None"
    by blast
  have an: "a < next_addr h" using assms(1) a(1) by (auto simp: wf_registry_def)
  show ?thesis
  proof (cases "err h = None \<and> funs h meta = None")
    case ok: True
    show ?thesis
    proof (cases "funcTree h (fmtSharpV f)")
      case None
      let ?h1 = "new_node h (fmtSharpV f) f"
      have pf: "fmtSharpV p \<noteq> fmtSharpV f" using None a(1) by auto
      have H: "Handle h meta f (p # ps) =
                 Handle_link ?h1 meta f p (fmtSharpV f) (next_addr h)"
        using ok None by (simp add: Handle_def Let_def)
      have "funcTree ?h1 (fmtSharpV p) = Some a" "children (heap ?h1 a) \<noteq> None"
        using a an pf by (auto simp: new_node_def)
      from Handle_link_parent_has_child[OF this]
      have "err (Handle h meta f (p # ps)) \<noteq> None \<and>
            funs (Handle h meta f (p # ps)) = funs ?h1 \<and>
            funcTree (Handle h meta f (p # ps)) = funcTree ?h1 \<and>
            heap (Handle h meta f (p # ps)) = heap ?h1"
        unfolding H by blast
      moreover have "funs ?h1 = funs h" by (simp add: new_node_def)
      moreover have "\<forall>k b. funcTree h k = Some b \<longrightarrow>
                       funcTree ?h1 k = Some b \<and> heap ?h1 b = heap h b"
        using assms(1) None by (auto simp: new_node_def wf_registry_def)
      ultimately show ?thesis by simp
    next
      case (Some m)
      with False have "children (heap h m) = None" by auto
      with ok Some have "Handle h meta f (p # ps) = Handle_link h meta f p (fmtSharpV f) m"
        by (simp add: Handle_def Let_def)
      with Handle_link_parent_has_child[OF a] show ?thesis by simp
    qed
  next
    case False
    then show ?thesis by (auto simp: Handle_def)
  qed
qed

theorem C1_child_conflict_rejected_witness:
  "funcTree chain3 (fmtSharpV stepA) = Some 0 \<and> children (heap chain3 0) = Some 1 \<and>
   err (Handle chain3 keyD stepA [stepC]) \<noteq> None \<and>
   funs (Handle chain3 keyD stepA [stepC]) = funs chain3 \<and>
   funcTree chain3 (fmtSharpV stepB) = Some 1 \<and>
   funcTree (Handle chain3 keyD stepA [stepC]) (fmtSharpV stepB) = Some 1 \<and>
   heap (Handle chain3 keyD stepA [stepC]) 1 = heap chain3 1"
proof -
  have a: "funcTree chain3 (fmtSharpV stepA) = Some 0" "children (heap chain3 0) = Some 1"
    "funcTree chain3 (fmtSharpV stepB) = Some 1"
    by (simp_all add: chain3_eq keys)
  then have "(\<exists>a. funcTree chain3 (fmtSharpV stepA) = Some a \<and>
                  children (heap chain3 a) \<noteq> None) \<or>
             (\<exists>a. funcTree chain3 (fmtSharpV stepC) = Some a \<and>
                  children (heap chain3 a) \<noteq> None)"
    by auto
  from C1_child_conflict_rejected[OF wf_chain3 this, of keyD Nil] a show ?thesis by simp
qed

subsection \<open>C2: a pipeline stops at the first payload with status error\<close>

text \<open>
  C2: let the key \<open>meta\<close> lead to a chain of three nodes with the handlers \<open>b1\<close>,
  \<open>b2\<close> and a third one, let the context of the caller not be done before the second
  handler is called, let the payload of the first handler have another status than error
  (so that the second handler is reached) and the payload of the second handler the status
  error. Then \<^verbatim>\<open>CallPipelineFunc\<close> returns nil, has sent exactly these two payloads, and
  has invoked the first and the second handler and no other one.
\<close>

theorem C2_pipeline_short_circuit:
  assumes "funs h meta = Some g" and "funcTree h (fmtSharpV g) = Some n1"
    and "main (heap h n1) = Func p1 b1" and "children (heap h n1) = Some n2"
    and "main (heap h n2) = Func p2 b2" and "children (heap h n2) = Some n3"
    and "\<forall>t. done_at ctx = Some t \<longrightarrow> clock w + Millisecond + dt1 + Millisecond \<le> t"
    and "b1 (WithTimeout ctx (clock w) (30 * Second)) data = (d1, e1, dt1)"
    and "Status (Payload d1) \<noteq> ErrorLevel"
    and "b2 (WithTimeout ctx (clock w + Millisecond + dt1) (30 * Second)) data = (d2, e2, dt2)"
    and "Status (Payload d2) = ErrorLevel"
  shows "\<exists>w'. CallPipelineFunc h ctx meta data ch w =
                 Some (Returns (None, ch @ [Payload d1, Payload d2], w')) \<and>
              invoked w' = invoked w @ [Func p1 b1, Func p2 b2]"
proof -
  let ?w0 = "log_h h debugLevel
               (Errorf ''in:%v:%v:%s''
                  [ArgMeta meta, ArgData data, ArgS (getFunctionName pc_CallPipelineFunc)]) [] w"
  let ?w1 = "shell_log h data e1
               (?w0\<lparr>clock := clock ?w0 + Millisecond + dt1,
                     invoked := invoked ?w0 @ [Func p1 b1]\<rparr>)"
  let ?w2 = "shell_log h data e2
               (?w1\<lparr>clock := clock ?w1 + Millisecond + dt2,
                     invoked := invoked ?w1 @ [Func p2 b2]\<rparr>)"
  have live0: "\<forall>t. done_at ctx = Some t \<longrightarrow> clock ?w0 + Millisecond \<le> t"
    using assms(7) by auto
  have live1: "\<forall>t. done_at ctx = Some t \<longrightarrow> clock ?w1 + Millisecond \<le> t"
    using assms(7) by auto
  have s1: "CallPipelineFunc_loop h ctx data n1 ch ?w0 =
              CallPipelineFunc_loop h ctx data n2 (ch @ [Payload d1]) ?w1"
    using loop_step[where ch = ch, OF assms(3) live0 _ refl] assms(4,8,9) by simp
  have s2: "CallPipelineFunc_loop h ctx data n2 (ch @ [Payload d1]) ?w1 =
              Some (Returns (ch @ [Payload d1, Payload d2], ?w2))"
    using loop_step[where ch = "ch @ [Payload d1]", OF assms(5) live1 _ refl] assms(10,11)
    by simp
  have "CallPipelineFunc h ctx meta data ch w =
          Some (Returns (None, ch @ [Payload d1, Payload d2], ?w2))"
    using assms(1,2) s1 s2 by (simp add: CallPipelineFunc_def)
  moreover have "invoked ?w2 = invoked w @ [Func p1 b1, Func p2 b2]" by simp
  ultimately show ?thesis by blast
qed

theorem C2_pipeline_short_circuit_witness:
  "funs chain3 keyA = Some stepA \<and> funcTree chain3 (fmtSharpV stepA) = Some 0 \<and>
   main (heap chain3 0) = stepA \<and> children (heap chain3 0) = Some 1 \<and>
   main (heap chain3 1) = stepB \<and> children (heap chain3 1) = Some 2 \<and>
   main (heap chain3 2) = stepC \<and>
   (\<exists>w'. CallPipelineFunc chain3 ctx_minute keyA order0 [] w_init =
           Some (Returns (None,
             [\<lparr>Event = ''order'', Data = Str ''42'', Status = ''ok'', Broadcast = False\<rparr>,
              \<lparr>Event = ''order'', Data = Str ''42'', Status = ''error'', Broadcast = False\<rparr>],
             w')) \<and>
         invoked w' = [stepA, stepB])"
proof -
  let ?c1 = "WithTimeout ctx_minute (clock w_init) (30 * Second)"
  let ?c2 = "WithTimeout ctx_minute (clock w_init + Millisecond + 5) (30 * Second)"
  let ?d1 = "order0\<lparr>Payload := (Payload order0)\<lparr>Status := ''ok''\<rparr>\<rparr>"
  let ?d2 = "order0\<lparr>Payload := (Payload order0)\<lparr>Status := ''error''\<rparr>\<rparr>"
  have m1: "main (heap chain3 0) = Func 4198400 (reply ''ok'' 5)"
    and m2: "main (heap chain3 1) = Func 4198656 (reply ''error'' 7)"
    by (simp_all add: chain3_eq stepA_def stepB_def)
  have live: "\<forall>t. done_at ctx_minute = Some t \<longrightarrow>
                clock w_init + Millisecond + 5 + Millisecond \<le> t"
    by (simp add: ctx_minute_def w_init_def Second_def Millisecond_def)
  have b1: "reply ''ok'' 5 ?c1 order0 = (?d1, None, 5)" by (simp add: reply_def)
  have b2: "reply ''error'' 7 ?c2 order0 = (?d2, None, 7)" by (simp add: reply_def)
  have s1: "Status (Payload ?d1) \<noteq> ErrorLevel" and s2: "Status (Payload ?d2) = ErrorLevel"
    by (simp_all add: ErrorLevel_def)
  from C2_pipeline_short_circuit[OF chain3_fields(1) chain3_fields(3) m1 chain3_fields(5) m2
          chain3_fields(7) live b1 s1 b2 s2, of Nil]
  obtain w' where r:
    "CallPipelineFunc chain3 ctx_minute keyA order0 [] w_init =
       Some (Returns (None, [] @ [Payload ?d1, Payload ?d2], w'))"
    "invoked w' =
       invoked w_init @ [Func 4198400 (reply ''ok'' 5), Func 4198656 (reply ''error'' 7)]"
    by blast
  have p: "[] @ [Payload ?d1, Payload ?d2] =
             [\<lparr>Event = ''order'', Data = Str ''42'', Status = ''ok'', Broadcast = False\<rparr>,
              \<lparr>Event = ''order'', Data = Str ''42'', Status = ''error'', Broadcast = False\<rparr>]"
    by (simp add: order0_def)
  have i: "invoked w_init @ [Func 4198400 (reply ''ok'' 5), Func 4198656 (reply ''error'' 7)] =
             [stepA, stepB]"
    by (simp add: w_init_def stepA_def stepB_def)
  from r have e: "\<exists>w'. CallPipelineFunc chain3 ctx_minute keyA order0 [] w_init =
           Some (Returns (None,
             [\<lparr>Event = ''order'', Data = Str ''42'', Status = ''ok'', Broadcast = False\<rparr>,
              \<lparr>Event = ''order'', Data = Str ''42'', Status = ''error'', Broadcast = False\<rparr>],
             w')) \<and>
         invoked w' = [stepA, stepB]"
    unfolding p i by blast
  show ?thesis
    using chain3_fields(1,3,4,5,6,7,8) e by (intro conjI)
qed

subsection \<open>C3: a deadline that has expired\<close>



subsection \<open>C4: the error state is sticky\<close>

text \<open>
  C4: once \<open>err\<close> is set, \<^verbatim>\<open>Handle\<close> and \<^verbatim>\<open>SetLogLevel\<close>, and any sequence of
  them, return the registry as it was (handler map, function tree, nodes, log level and
  error) and print nothing, and \<^verbatim>\<open>GetError\<close> returns the stored error.
\<close>

theorem C4_sticky_error:
  assumes "err h \<noteq> None"
  shows "Handle h meta f parents = h \<and> SetLogLevel ul h level w = (h, w) \<and>
         configure ul cs (h, w) = (h, w) \<and> GetError (fst (configure ul cs (h, w))) = err h"
  using assms
  by (simp add: Handle_sticky SetLogLevel_sticky configure_sticky GetError_def)

theorem C4_sticky_error_witness:
  "err stuck = Some (Errorf ''func with current params has been registered'' []) \<and>
   Handle stuck keyB stepB [] = stuck \<and>
   SetLogLevel (\<lambda>s. s) stuck ''debug'' w_init = (stuck, w_init) \<and>
   configure (\<lambda>s. s)
     [CallHandle keyB stepB [], CallSetLogLevel ''trace'', CallHandle keyC stepC [stepB]]
     (stuck, w_init) = (stuck, w_init) \<and>
   GetError stuck = Some (Errorf ''func with current params has been registered'' [])"
proof -
  have e: "err stuck = Some (Errorf ''func with current params has been registered'' [])"
    unfolding stuck_def registry0_def
    by (simp add: Handle_def new_node_def NewHandler_def Let_def)
  then have "err stuck \<noteq> None" by simp
  from C4_sticky_error[OF this, of keyB stepB Nil "\<lambda>s. s" "''debug''" w_init
        "[CallHandle keyB stepB [], CallSetLogLevel ''trace'', CallHandle keyC stepC [stepB]]"] e
  show ?thesis by (simp add: GetError_def del: configure.simps)
qed

subsection \<open>C5: CallFunc\<close>

text \<open>
  C5: for a key without a handler \<^verbatim>\<open>CallFunc\<close> returns an error together with a
  payload of status error that carries the event of the input. For a key with the handler
  \<open>f\<close> it does what \<^verbatim>\<open>shell\<close> does on \<open>f\<close>, and where \<^verbatim>\<open>shell\<close> returns data,
  it returns these data with a nil error.
\<close>

theorem C5_CallFunc:
  "(funs h meta = None \<longrightarrow>
      CallFunc h ctx meta data w =
        Some (Returns
          ((\<lparr>Client = NilValue,
             Payload = \<lparr>Event = Event (Payload data), Data = NilValue,
                        Status = ErrorLevel, Broadcast = False\<rparr>\<rparr>,
            Some (Errorf ''func with current params has not been registered:%v:%s''
                    [ArgMeta meta, ArgS (getFunctionName pc_CallFunc)])),
           log_h h debugLevel
             (Errorf ''in:%v:%v:%s''
                [ArgMeta meta, ArgData data, ArgS (getFunctionName pc_CallFunc)]) [] w))) \<and>
   (funs h meta = Some f \<longrightarrow>
      map_option (map_outcome fst) (CallFunc h ctx meta data w) =
        map_option (map_outcome (\<lambda>(d, w1). (d, None)))
          (shell h f ctx data
             (log_h h debugLevel
                (Errorf ''in:%v:%v:%s''
                   [ArgMeta meta, ArgData data, ArgS (getFunctionName pc_CallFunc)]) [] w)))"
  by (auto simp: CallFunc_def Let_def split: option.splits outcome.splits)

theorem C5_CallFunc_witness:
  "funs chain3 keyD = None \<and>
   CallFunc chain3 ctx_minute keyD order0 w_init =
     Some (Returns
       ((\<lparr>Client = NilValue,
          Payload = \<lparr>Event = ''order'', Data = NilValue, Status = ''error'',
                     Broadcast = False\<rparr>\<rparr>,
         Some (Errorf ''func with current params has not been registered:%v:%s''
                 [ArgMeta keyD, ArgS (getFunctionName pc_CallFunc)])),
        w_init)) \<and>
   funs chain3 keyA = Some stepA \<and>
   map_option (map_outcome fst) (CallFunc chain3 ctx_minute keyA order0 w_init) =
     Some (Returns
       (\<lparr>Client = Opaque 7,
         Payload = \<lparr>Event = ''order'', Data = Str ''42'', Status = ''ok'', Broadcast = False\<rparr>\<rparr>,
        None))"
proof -
  have miss: "funs chain3 keyD = None" and hit: "funs chain3 keyA = Some stepA"
    by (rule chain3_fields)+
  have sel: "select_ctx ctx_minute (clock w_init) = TimeAfter (clock w_init + Millisecond)"
    using ctx_minute_live by (rule select_timer)
  have run: "shell chain3 stepA ctx_minute order0 w_init =
               Some (Returns
                 (\<lparr>Client = Opaque 7,
                   Payload = \<lparr>Event = ''order'', Data = Str ''42'', Status = ''ok'',
                              Broadcast = False\<rparr>\<rparr>,
                  w_init\<lparr>clock := clock w_init + Millisecond + 5,
                         invoked := invoked w_init @ [stepA]\<rparr>))"
    unfolding stepA_def
    by (subst shell_timer[OF sel, of "reply ''ok'' 5" order0 _ None 5])
       (simp_all add: reply_def order0_def shell_log_def)
  from C5_CallFunc[where h = chain3 and meta = keyD and ctx = ctx_minute and data = order0
            and w = w_init] miss
  have a: "CallFunc chain3 ctx_minute keyD order0 w_init =
     Some (Returns
       ((\<lparr>Client = NilValue,
          Payload = \<lparr>Event = ''order'', Data = NilValue, Status = ''error'',
                     Broadcast = False\<rparr>\<rparr>,
         Some (Errorf ''func with current params has not been registered:%v:%s''
                 [ArgMeta keyD, ArgS (getFunctionName pc_CallFunc)])),
        w_init))"
    by (simp add: chain3_quiet order0_def ErrorLevel_def)
  from C5_CallFunc[where h = chain3 and meta = keyA and ctx = ctx_minute and data = order0
            and w = w_init and f = stepA] hit run
  have b: "map_option (map_outcome fst) (CallFunc chain3 ctx_minute keyA order0 w_init) =
     Some (Returns
       (\<lparr>Client = Opaque 7,
         Payload = \<lparr>Event = ''order'', Data = Str ''42'', Status = ''ok'', Broadcast = False\<rparr>\<rparr>,
        None))"
    by (simp add: chain3_quiet)
  from miss a hit b show ?thesis by (intro conjI)
qed

subsection \<open>C6: CallPipelineFunc on a key without a handler\<close>

text \<open>
  C6: for a key without a handler \<^verbatim>\<open>CallPipelineFunc\<close> sends exactly one payload, of
  status error and with the event of the input, returns an error and invokes no handler.
  For a key whose handler has a tree node it does what the loop over the chain does, and
  where the loop ends it returns nil.
\<close>

theorem C6_CallPipelineFunc_lookup:
  "(funs h meta = None \<longrightarrow>
      CallPipelineFunc h ctx meta data ch w =
        Some (Returns
          (Some (Errorf ''func with current params has not been registered:%v:%s''
                   [ArgMeta meta, ArgS (getFunctionName pc_CallPipelineFunc)]),
           ch @ [\<lparr>Event = Event (Payload data), Data = NilValue,
                  Status = ErrorLevel, Broadcast = False\<rparr>],
           log_h h debugLevel
             (Errorf ''in:%v:%v:%s''
                [ArgMeta meta, ArgData data, ArgS (getFunctionName pc_CallPipelineFunc)])
             [] w)) \<and>
      invoked (log_h h debugLevel
             (Errorf ''in:%v:%v:%s''
                [ArgMeta meta, ArgData data, ArgS (getFunctionName pc_CallPipelineFunc)])
             [] w) = invoked w) \<and>
   (funs h meta = Some f \<and> funcTree h (fmtSharpV f) = Some n \<longrightarrow>
      CallPipelineFunc h ctx meta data ch w =
        map_option (map_outcome (\<lambda>(ch1, w1). (None, ch1, w1)))
          (CallPipelineFunc_loop h ctx data n ch
             (log_h h debugLevel
                (Errorf ''in:%v:%v:%s''
                   [ArgMeta meta, ArgData data, ArgS (getFunctionName pc_CallPipelineFunc)])
                [] w)))"
  by (auto simp: CallPipelineFunc_def Let_def split: option.splits outcome.splits)

theorem C6_CallPipelineFunc_lookup_witness:
  "funs chain3 keyD = None \<and>
   CallPipelineFunc chain3 ctx_minute keyD order0 [] w_init =
     Some (Returns
       (Some (Errorf ''func with current params has not been registered:%v:%s''
                [ArgMeta keyD, ArgS (getFunctionName pc_CallPipelineFunc)]),
        [\<lparr>Event = ''order'', Data = NilValue, Status = ''error'', Broadcast = False\<rparr>],
        w_init)) \<and>
   funs chain3 keyC = Some stepC \<and> funcTree chain3 (fmtSharpV stepC) = Some 2 \<and>
   CallPipelineFunc chain3 ctx_minute keyC order0 [] w_init =
     Some (Returns
       (None,
        [\<lparr>Event = ''order'', Data = Str ''42'', Status = ''ok'', Broadcast = False\<rparr>],
        w_init\<lparr>clock := Millisecond + 9, invoked := [stepC]\<rparr>))"
proof -
  have miss: "funs chain3 keyD = None" by (rule chain3_fields)
  have hit: "funs chain3 keyC = Some stepC" "funcTree chain3 (fmtSharpV stepC) = Some 2"
    by (simp_all add: chain3_eq keys keyA_def keyB_def keyC_def)
  have m: "main (heap chain3 2) = Func 4198912 (reply ''ok'' 9)"
    and c: "children (heap chain3 2) = None"
    by (simp_all add: chain3_eq stepC_def)
  have b: "reply ''ok'' 9 (WithTimeout ctx_minute (clock w_init) (30 * Second)) order0 =
             (order0\<lparr>Payload := (Payload order0)\<lparr>Status := ''ok''\<rparr>\<rparr>, None, 9)"
    by (simp add: reply_def)
  have run: "CallPipelineFunc_loop chain3 ctx_minute order0 2 [] w_init =
               Some (Returns
                 ([\<lparr>Event = ''order'', Data = Str ''42'', Status = ''ok'',
                    Broadcast = False\<rparr>],
                  w_init\<lparr>clock := Millisecond + 9, invoked := [stepC]\<rparr>))"
    by (subst loop_step[OF m ctx_minute_live b refl])
       (simp add: c order0_def ErrorLevel_def shell_log_def w_init_def stepC_def)
  from C6_CallPipelineFunc_lookup[where h = chain3 and meta = keyD and ctx = ctx_minute
            and data = order0 and ch = Nil and w = w_init] miss
  have a: "CallPipelineFunc chain3 ctx_minute keyD order0 [] w_init =
     Some (Returns
       (Some (Errorf ''func with current params has not been registered:%v:%s''
                [ArgMeta keyD, ArgS (getFunctionName pc_CallPipelineFunc)]),
        [\<lparr>Event = ''order'', Data = NilValue, Status = ''error'', Broadcast = False\<rparr>],
        w_init))"
    by (simp add: chain3_quiet order0_def ErrorLevel_def)
  from C6_CallPipelineFunc_lookup[where h = chain3 and meta = keyC and f = stepC and n = 2
            and ctx = ctx_minute and data = order0 and ch = Nil and w = w_init] hit run
  have d: "CallPipelineFunc chain3 ctx_minute keyC order0 [] w_init =
     Some (Returns
       (None,
        [\<lparr>Event = ''order'', Data = Str ''42'', Status = ''ok'', Broadcast = False\<rparr>],
        w_init\<lparr>clock := Millisecond + 9, invoked := [stepC]\<rparr>))"
    by (simp add: chain3_quiet)
  from miss a hit d show ?thesis by (intro conjI)
qed

subsection \<open>C7: a handler that returns an error\<close>

text \<open>
  C7: \<^verbatim>\<open>shell\<close> returns data and no error value. When the timer case of the select is
  taken, so that the handler runs, and the handler returns the data \<open>d\<close> with a non-nil
  error \<open>e\<close>, \<^verbatim>\<open>shell\<close> logs \<open>e\<close> at the error level and returns \<open>d\<close> as it is.
\<close>

theorem C7_handler_error:
  assumes "select_ctx ctx (clock w) = TimeAfter t" and "b ctx data = (d, Some e, dt)"
  shows "shell h (Func p b) ctx data w =
           Some (Returns
             (d, log_h h errorLevel
                   (Errorf ''%w:%s'' [ArgE e, ArgS (getFunctionName pc_shell)])
                   [LogPayload (Payload data), LogAny (Client data)]
                   (w\<lparr>clock := t + dt, invoked := invoked w @ [Func p b]\<rparr>)))"
  using assms by (simp add: shell_timer shell_log_def)

theorem C7_handler_error_witness:
  "select_ctx ctx_minute (clock w_late) = TimeAfter (5 * Second + Millisecond) \<and>
   failing ctx_minute order0 =
     (order0\<lparr>Payload := (Payload order0)\<lparr>Data := Str ''partial''\<rparr>\<rparr>,
      Some (HandlerError ''boom''), 3) \<and>
   shell chain3 stepE ctx_minute order0 w_late =
     Some (Returns
       (order0\<lparr>Payload := (Payload order0)\<lparr>Data := Str ''partial''\<rparr>\<rparr>,
        \<lparr>clock = 5 * Second + Millisecond + 3,
         printed =
          [\<lparr>log_Event = Errorf ''%w''
              [ArgE (Errorf ''%w:%s''
                 [ArgE (HandlerError ''boom''), ArgS (getFunctionName pc_shell)])],
            Level = errorLevel, Module = ''websockethandler'',
            Body = [LogPayload (Payload order0), LogAny (Client order0)]\<rparr>],
         invoked = [stepE]\<rparr>))"
proof -
  have s: "select_ctx ctx_minute (clock w_late) = TimeAfter (5 * Second + Millisecond)"
    by (simp add: select_ctx_def ctx_minute_def w_late_def Second_def Millisecond_def)
  have b: "failing ctx_minute order0 =
     (order0\<lparr>Payload := (Payload order0)\<lparr>Data := Str ''partial''\<rparr>\<rparr>,
      Some (HandlerError ''boom''), 3)"
    by (simp add: failing_def)
  from C7_handler_error[where h = chain3 and p = 4199168 and b = failing, OF s b] s b
  show ?thesis
    by (simp add: log_h_def chain3_fields levels w_late_def stepE_def)
qed

subsection \<open>C8: ParseLevel\<close>

text \<open>
  C8: \<^verbatim>\<open>ParseLevel\<close> maps both \<open>WARN\<close> and \<open>warning\<close> to the warn level. It
  looks at its input in lower case only: inputs with the same lower case get the same
  level and fail together. An input whose lower case is one of the accepted names gives no
  error; any other input gives the error that carries this input.
\<close>

theorem C8_ParseLevel:
  "ParseLevel ul ''WARN'' = (warnLevel, None) \<and>
   ParseLevel ul ''warning'' = (warnLevel, None) \<and>
   (ToLower ul s = ToLower ul s' \<longrightarrow>
      fst (ParseLevel ul s) = fst (ParseLevel ul s') \<and>
      (snd (ParseLevel ul s) = None \<longleftrightarrow> snd (ParseLevel ul s') = None)) \<and>
   (ToLower ul lvl \<in> set level_names \<longrightarrow> snd (ParseLevel ul lvl) = None) \<and>
   (ToLower ul lvl \<notin> set level_names \<longrightarrow>
      ParseLevel ul lvl = (0, Some (Errorf ''not a valid Level: %q'' [ArgQ lvl])))"
proof -
  have a: "ParseLevel ul ''WARN'' = (warnLevel, None)"
    "ParseLevel ul ''warning'' = (warnLevel, None)"
    by (simp_all add: ParseLevel_def ToLower_def isASCII_def asciiLower_def)
  have b: "ToLower ul s = ToLower ul s' \<longrightarrow>
      fst (ParseLevel ul s) = fst (ParseLevel ul s') \<and>
      (snd (ParseLevel ul s) = None \<longleftrightarrow> snd (ParseLevel ul s') = None)"
    by (simp add: ParseLevel_def Let_def)
  have c: "ToLower ul lvl \<in> set level_names \<longrightarrow> snd (ParseLevel ul lvl) = None"
    by (auto simp: ParseLevel_def Let_def level_names_def)
  have d: "ToLower ul lvl \<notin> set level_names \<longrightarrow>
      ParseLevel ul lvl = (0, Some (Errorf ''not a valid Level: %q'' [ArgQ lvl]))"
    by (simp add: ParseLevel_def Let_def level_names_def)
  from a b c d show ?thesis by blast
qed

theorem C8_ParseLevel_witness:
  "ToLower (\<lambda>s. s) ''WARNING'' = ToLower (\<lambda>s. s) ''Warning'' \<and>
   fst (ParseLevel (\<lambda>s. s) ''WARNING'') = fst (ParseLevel (\<lambda>s. s) ''Warning'') \<and>
   ToLower (\<lambda>s. s) ''Debug'' \<in> set level_names \<and>
   snd (ParseLevel (\<lambda>s. s) ''Debug'') = None \<and>
   ToLower (\<lambda>s. s) ''bogus'' \<notin> set level_names \<and>
   ParseLevel (\<lambda>s. s) ''bogus'' = (0, Some (Errorf ''not a valid Level: %q'' [ArgQ ''bogus'']))"
proof -
  have a: "ToLower (\<lambda>s. s) ''WARNING'' = ToLower (\<lambda>s. s) ''Warning''"
    and b: "ToLower (\<lambda>s. s) ''Debug'' \<in> set level_names"
    and c: "ToLower (\<lambda>s. s) ''bogus'' \<notin> set level_names"
    by (simp_all add: ToLower_def isASCII_def asciiLower_def level_names_def)
  from C8_ParseLevel[of "\<lambda>s. s" "''WARNING''" "''Warning''" "''Debug''"] a b
       C8_ParseLevel[of "\<lambda>s. s" "''WARNING''" "''Warning''" "''bogus''"] c
  show ?thesis by simp
qed

subsection \<open>C9: a cancelled context\<close>

text \<open>
  C9 as stated fails: the loop of \<^verbatim>\<open>shell\<close> can return on a cancelled context.
  Under the schedule \<open>stalled\<close> the first two passes take the Done case and fall
  through; the third pass is held for two milliseconds, so its timer has fired at the
  poll, the select takes the timer case, the handler is invoked and its data are returned.
\<close>

theorem C9_stalled_pass_counterexample:
  "done_at ctx_cancelled = Some (3 * Second) \<and> 3 * Second < clock w_late + Millisecond \<and>
   cause ctx_cancelled = Canceled \<and>
   shell_sched chain3 stepA ctx_cancelled order0 stalled 0 w_late =
     Some (Returns
       (\<lparr>Client = Opaque 7,
         Payload = \<lparr>Event = ''order'', Data = Str ''42'', Status = ''ok'', Broadcast = False\<rparr>\<rparr>,
        \<lparr>clock = 5 * Second + 2 * Millisecond + 5, printed = [], invoked = [stepA]\<rparr>))"
  using ctx_cancelled_facts stalled_run by (intro conjI)

text \<open>
  C9, amended: let the context be done with \<^verbatim>\<open>Canceled\<close> before the millisecond
  of the select has passed. Then the Done case never returns: a pass that takes it falls
  through and the loop goes round again, and no timeout payload is produced. The loop
  never returns exactly when no pass is held until its timer has fired with the timer case
  then taken. When the loop returns, it does so through the timer case: until then no
  handler has been invoked and nothing has been logged, and the result is that of calling
  the handler.
\<close>

theorem C9_cancelled_loop:
  assumes "done_at ctx = Some t" and "t < clock w + Millisecond" and "cause ctx = Canceled"
  shows "(shell_sched h f ctx data sch k w = None \<longleftrightarrow> (\<forall>j\<ge>k. \<not> held (sch j))) \<and>
         (\<forall>r. shell_sched h f ctx data sch k w = Some r \<longrightarrow>
            (\<exists>w1. invoked w1 = invoked w \<and> printed w1 = printed w \<and>
                  r = timer_case h f ctx data w1))"
proof -
  have ne: "cause ctx \<noteq> DeadlineExceeded" using assms(3) by simp
  have a: "shell_sched h f ctx data sch k w = None" if "\<forall>j\<ge>k. \<not> held (sch j)"
  proof (cases "shell_sched h f ctx data sch k w")
    case None
    then show ?thesis .
  next
    case (Some r)
    from shell_sched_cancelled_result[OF this assms(1,2) ne] that show ?thesis by blast
  qed
  have b: "shell_sched h f ctx data sch k w \<noteq> None" if "k \<le> j" "held (sch j)" for j
  proof -
    from that(1) obtain d where "j = k + d" by (auto simp: le_iff_add)
    with that(2) shell_sched_cancelled_returns[OF assms(1,2) ne] show ?thesis by blast
  qed
  have c: "\<exists>w1. invoked w1 = invoked w \<and> printed w1 = printed w \<and>
                  r = timer_case h f ctx data w1"
    if "shell_sched h f ctx data sch k w = Some r" for r
    using shell_sched_cancelled_result[OF that assms(1,2) ne] by blast
  from a b c show ?thesis by blast
qed

theorem C9_cancelled_loop_witness:
  "done_at ctx_cancelled = Some (3 * Second) \<and> 3 * Second < clock w_late + Millisecond \<and>
   cause ctx_cancelled = Canceled \<and>
   shell_sched chain3 stepA ctx_cancelled order0 (\<lambda>k. on_time) 0 w_late = None \<and>
   held (stalled 2) \<and>
   shell_sched chain3 stepA ctx_cancelled order0 stalled 0 w_late \<noteq> None \<and>
   (\<exists>w1. invoked w1 = invoked w_late \<and> printed w1 = printed w_late \<and>
      Returns
       (\<lparr>Client = Opaque 7,
         Payload = \<lparr>Event = ''order'', Data = Str ''42'', Status = ''ok'', Broadcast = False\<rparr>\<rparr>,
        \<lparr>clock = 5 * Second + 2 * Millisecond + 5, printed = [], invoked = [stepA]\<rparr>) =
      timer_case chain3 stepA ctx_cancelled order0 w1)"
proof -
  have p: "\<forall>j\<ge>0. \<not> held ((\<lambda>k. on_time) j)"
    by (simp add: held_def on_time_def Millisecond_def)
  have s: "held (stalled 2)" by (simp add: held_def stalled_def)
  from C9_cancelled_loop[OF ctx_cancelled_facts, of chain3 stepA order0 "\<lambda>k. on_time" 0] p
  have a: "shell_sched chain3 stepA ctx_cancelled order0 (\<lambda>k. on_time) 0 w_late = None"
    by blast
  from C9_cancelled_loop[OF ctx_cancelled_facts, of chain3 stepA order0 stalled 0] s stalled_run
  have b: "shell_sched chain3 stepA ctx_cancelled order0 stalled 0 w_late \<noteq> None \<and>
   (\<exists>w1. invoked w1 = invoked w_late \<and> printed w1 = printed w_late \<and>
      Returns
       (\<lparr>Client = Opaque 7,
         Payload = \<lparr>Event = ''order'', Data = Str ''42'', Status = ''ok'', Broadcast = False\<rparr>\<rparr>,
        \<lparr>clock = 5 * Second + 2 * Millisecond + 5, printed = [], invoked = [stepA]\<rparr>) =
      timer_case chain3 stepA ctx_cancelled order0 w1)"
    by auto
  from ctx_cancelled_facts a s b show ?thesis by (intro conjI) auto
qed

subsection \<open>C10: a parent without a tree node\<close>

text \<open>
  C10: when \<^verbatim>\<open>Handle\<close> fails because the parent has no tree node, the map from keys to
  handlers is as before. When the handler had no tree node, the node made for it stays in
  the function tree; when it had one, the function tree and the nodes are as before.
\<close>

theorem C10_missing_parent:
  assumes "err h = None" and "funs h meta = None"
    and "funcTree h (fmtSharpV p) = None" and "fmtSharpV p \<noteq> fmtSharpV f"
    and "\<forall>a. funcTree h (fmtSharpV f) = Some a \<longrightarrow> children (heap h a) = None"
  shows "err (Handle h meta f (p # ps)) =
           Some (Errorf ''there is no registered parent function:%s:%s:%s''
                   [ArgS (fmtSharpV f), ArgS (fmtSharpV p), ArgS (getFunctionName pc_Handle)]) \<and>
         funs (Handle h meta f (p # ps)) = funs h \<and>
         (funcTree h (fmtSharpV f) = None \<longrightarrow>
            funcTree (Handle h meta f (p # ps)) = (funcTree h)(fmtSharpV f \<mapsto> next_addr h) \<and>
            heap (Handle h meta f (p # ps)) =
              (heap h)(next_addr h := \<lparr>main = f, parent = None, children = None\<rparr>) \<and>
            next_addr (Handle h meta f (p # ps)) = Suc (next_addr h)) \<and>
         (funcTree h (fmtSharpV f) \<noteq> None \<longrightarrow>
            funcTree (Handle h meta f (p # ps)) = funcTree h \<and>
            heap (Handle h meta f (p # ps)) = heap h)"
  using assms
  by (auto simp: Handle_def Handle_link_def new_node_def Let_def split: option.splits)

theorem C10_missing_parent_witness:
  "err orphan = None \<and> funs orphan keyB = None \<and> funcTree orphan (fmtSharpV stepC) = None \<and>
   fmtSharpV stepC \<noteq> fmtSharpV stepB \<and> funcTree orphan (fmtSharpV stepB) = None \<and>
   err (Handle orphan keyB stepB [stepC]) =
     Some (Errorf ''there is no registered parent function:%s:%s:%s''
             [ArgS ''(websockethandler.HandlerFunc)(0x401100)'',
              ArgS ''(websockethandler.HandlerFunc)(0x401200)'',
              ArgS (getFunctionName pc_Handle)]) \<and>
   funs (Handle orphan keyB stepB [stepC]) = funs orphan \<and>
   funcTree (Handle orphan keyB stepB [stepC]) (fmtSharpV stepB) = Some 1 \<and>
   heap (Handle orphan keyB stepB [stepC]) 1 = \<lparr>main = stepB, parent = None, children = None\<rparr> \<and>
   funcTree orphan (fmtSharpV stepA) = Some 0 \<and> children (heap orphan 0) = None \<and>
   funs (Handle orphan keyB stepA [stepC]) = funs orphan \<and>
   funcTree (Handle orphan keyB stepA [stepC]) = funcTree orphan \<and>
   heap (Handle orphan keyB stepA [stepC]) = heap orphan"
proof -
  have h: "err orphan = None" "funs orphan keyB = None"
    "funcTree orphan (fmtSharpV stepC) = None"
    "fmtSharpV stepC \<noteq> fmtSharpV stepB" "funcTree orphan (fmtSharpV stepB) = None"
    "next_addr orphan = 1"
    "funcTree orphan (fmtSharpV stepA) = Some 0" "children (heap orphan 0) = None"
    "fmtSharpV stepC \<noteq> fmtSharpV stepA"
    by (simp_all add: orphan_eq keys keys_distinct)
  from h have nb: "\<forall>a. funcTree orphan (fmtSharpV stepB) = Some a \<longrightarrow>
                      children (heap orphan a) = None"
    by simp
  from h have na: "\<forall>a. funcTree orphan (fmtSharpV stepA) = Some a \<longrightarrow>
                      children (heap orphan a) = None"
    by simp
  from C10_missing_parent[OF h(1,2,3,4) nb, of Nil] h
  have fresh: "err (Handle orphan keyB stepB [stepC]) =
     Some (Errorf ''there is no registered parent function:%s:%s:%s''
             [ArgS ''(websockethandler.HandlerFunc)(0x401100)'',
              ArgS ''(websockethandler.HandlerFunc)(0x401200)'',
              ArgS (getFunctionName pc_Handle)]) \<and>
   funs (Handle orphan keyB stepB [stepC]) = funs orphan \<and>
   funcTree (Handle orphan keyB stepB [stepC]) (fmtSharpV stepB) = Some 1 \<and>
   heap (Handle orphan keyB stepB [stepC]) 1 = \<lparr>main = stepB, parent = None, children = None\<rparr>"
    by (simp add: keys)
  from C10_missing_parent[OF h(1,2,3,9) na, of Nil] h
  have kept: "funs (Handle orphan keyB stepA [stepC]) = funs orphan \<and>
   funcTree (Handle orphan keyB stepA [stepC]) = funcTree orphan \<and>
   heap (Handle orphan keyB stepA [stepC]) = heap orphan"
    by simp
  from h fresh kept show ?thesis by (intro conjI) simp_all
qed

end
